theory Spec2Isabelle
  imports Complex_Main
begin

section \<open>GPS broadcast-ephemeris parser and orbit propagator\<close>

text \<open>
  A shallow embedding of \<^verbatim>\<open>gps_navigation.py\<close>. Conventions of the model:
  \<^item> a Python \<^verbatim>\<open>float\<close> is a \<^typ>\<open>real\<close>: rounding, overflow to infinity and NaN
    are outside the model; the seconds column of a record's first line, where
    \<^verbatim>\<open>float\<close> can read the literals \<^verbatim>\<open>inf\<close> and \<^verbatim>\<open>nan\<close>, has the type \<open>pyfloat\<close>
    that keeps them apart;
  \<^item> a Python \<^verbatim>\<open>int\<close> is an \<^typ>\<open>int\<close>, and \<^verbatim>\<open>//\<close> on ints is \<open>div\<close>
    (both round towards minus infinity);
  \<^item> an exception is a value of the type \<open>error\<close>, returned as \<open>Inl\<close>;
  \<^item> a file is the list of its lines, a line a list of characters with code points
    below 256.
\<close>

text \<open>
  \<^verbatim>\<open>IndexError\<close>, \<^verbatim>\<open>ValueError\<close> and \<^verbatim>\<open>ZeroDivisionError\<close> are the built-in
  exceptions that statements of the source raise. \<^verbatim>\<open>FormatError\<close> is the error that the
  specification names for a file with no header terminator: the source defines no such
  class and has no \<^verbatim>\<open>raise\<close> statement, so no function below returns it.
\<close>

datatype error = IndexError | ValueError | ZeroDivisionError | FormatError

subsection \<open>Strings and numbers as Python reads them\<close>

text \<open>
  \<^verbatim>\<open>str.strip()\<close> removes leading and trailing whitespace. Below code point 256 the
  whitespace characters of \<^verbatim>\<open>str\<close> are 9 to 13, 28 to 32, 133 and 160.
  \<^verbatim>\<open>int()\<close> and \<^verbatim>\<open>float()\<close> strip their argument too, but do not take 28 to 31
  for whitespace.
\<close>

definition is_space :: "char \<Rightarrow> bool" where
  "is_space c = (of_char c \<in> {9, 10, 11, 12, 13, 28, 29, 30, 31, 32, 133, 160 :: nat})"

definition is_number_space :: "char \<Rightarrow> bool" where
  "is_number_space c = (of_char c \<in> {9, 10, 11, 12, 13, 32, 133, 160 :: nat})"

definition strip_by :: "(char \<Rightarrow> bool) \<Rightarrow> string \<Rightarrow> string" where
  "strip_by p s = rev (dropWhile p (rev (dropWhile p s)))"

definition strip :: "string \<Rightarrow> string" where
  "strip s = strip_by is_space s"

text \<open>\<^verbatim>\<open>s[i:j]\<close> for \<open>0 \<le> i \<le> j\<close>; a slice never raises, it is cut at the end of \<open>s\<close>.\<close>

definition slice :: "nat \<Rightarrow> nat \<Rightarrow> string \<Rightarrow> string" where
  "slice i j s = take (j - i) (drop i s)"

text \<open>\<^verbatim>\<open>sub in s\<close>: \<open>sub\<close> occurs in \<open>s\<close> as a contiguous substring.\<close>

fun contains :: "string \<Rightarrow> string \<Rightarrow> bool" where
  "contains sub [] = (sub = [])"
| "contains sub (c # cs) = (take (length sub) (c # cs) = sub \<or> contains sub cs)"

definition is_digit :: "char \<Rightarrow> bool" where
  "is_digit c = (c \<in> set ''0123456789'')"

definition is_sign :: "char \<Rightarrow> bool" where
  "is_sign c = (c = CHR ''-'' \<or> c = CHR ''+'')"

text \<open>
  The grammar of Python's numeric literals in text: a \<^verbatim>\<open>digitpart\<close> is a digit followed
  by digits, each optionally preceded by one underscore.
\<close>

fun digitpart :: "string \<Rightarrow> bool" where
  "digitpart [] = False"
| "digitpart [c] = is_digit c"
| "digitpart (c # d # cs) =
     (is_digit c \<and> (if d = CHR ''_'' then digitpart cs else digitpart (d # cs)))"

definition digits_value :: "string \<Rightarrow> int" where
  "digits_value s = foldl (\<lambda>a c. 10 * a + (int (of_char c) - 48)) 0 (filter is_digit s)"

definition split_sign :: "string \<Rightarrow> bool \<times> string" where
  "split_sign s =
     (case s of
        [] \<Rightarrow> (False, [])
      | c # cs \<Rightarrow>
          if c = CHR ''-'' then (True, cs)
          else if c = CHR ''+'' then (False, cs)
          else (False, c # cs))"

text \<open>\<^verbatim>\<open>int(s)\<close> in base 10: whitespace, an optional sign, a \<^verbatim>\<open>digitpart\<close>.\<close>

definition py_int :: "string \<Rightarrow> error + int" where
  "py_int s =
     (let (neg, body) = split_sign (strip_by is_number_space s) in
      if digitpart body then Inr (if neg then - digits_value body else digits_value body)
      else Inl ValueError)"

text \<open>
  \<^verbatim>\<open>float(s)\<close>: whitespace, an optional sign, then \<^verbatim>\<open>inf\<close>, \<^verbatim>\<open>infinity\<close> or
  \<^verbatim>\<open>nan\<close> in any case, or a decimal literal
  \<^verbatim>\<open>([digitpart] "." digitpart | digitpart ["."]) [("e" | "E") ["+" | "-"] digitpart]\<close>.
  \<open>float_literal\<close> reads the unsigned decimal literal and gives its value.
\<close>

datatype pyfloat = Finite real | PosInf | NegInf | NaN

definition to_lower :: "char \<Rightarrow> char" where
  "to_lower c = (if 65 \<le> (of_char c :: nat) \<and> (of_char c :: nat) \<le> 90
                 then char_of (of_char c + 32 :: nat) else c)"

definition float_literal :: "string \<Rightarrow> real option" where
  "float_literal s =
     (let mant = takeWhile (\<lambda>c. c \<noteq> CHR ''e'' \<and> c \<noteq> CHR ''E'') s;
          rest = dropWhile (\<lambda>c. c \<noteq> CHR ''e'' \<and> c \<noteq> CHR ''E'') s;
          ip = takeWhile (\<lambda>c. c \<noteq> CHR ''.'') mant;
          fr = dropWhile (\<lambda>c. c \<noteq> CHR ''.'') mant;
          fp = tl fr;
          mant_ok = (if fr = [] then digitpart ip
                     else (ip = [] \<or> digitpart ip) \<and> (fp = [] \<or> digitpart fp)
                          \<and> \<not> (ip = [] \<and> fp = []));
          (eneg, edigits) = split_sign (tl rest);
          exp_ok = (rest = [] \<or> digitpart edigits);
          ex = (if rest = [] then 0
                else if eneg then - digits_value edigits else digits_value edigits)
                - int (length (filter is_digit fp));
          m = real_of_int (digits_value (ip @ fp))
      in if mant_ok \<and> exp_ok
         then Some (if 0 \<le> ex then m * 10 ^ nat ex else m / 10 ^ nat (- ex))
         else None)"

definition decimal_float :: "string \<Rightarrow> error + real" where
  "decimal_float s =
     (let (neg, body) = split_sign (strip_by is_number_space s) in
      case float_literal body of
        None \<Rightarrow> Inl ValueError
      | Some r \<Rightarrow> Inr (if neg then - r else r))"

definition py_float :: "string \<Rightarrow> error + pyfloat" where
  "py_float s =
     (let (neg, body) = split_sign (strip_by is_number_space s); name = map to_lower body in
      if name = ''inf'' \<or> name = ''infinity'' then Inr (if neg then NegInf else PosInf)
      else if name = ''nan'' then Inr NaN
      else case decimal_float s of Inl err \<Rightarrow> Inl err | Inr r \<Rightarrow> Inr (Finite r))"

subsection \<open>Step 2: the numeric tokens of a line\<close>

text \<open>
  \<^verbatim>\<open>re.findall(r'[\-\+]?[0-9\.]+D[\-\+]?[0-9]+', ln)\<close>. At a position the pattern
  matches in one way only: the sign is taken when it is there, the run of digits and
  dots is the longest one and must be followed by \<^verbatim>\<open>D\<close>, the exponent's sign is taken
  when it is there and the exponent is the longest run of digits. Giving back a
  character never helps, because no class of the pattern shares a character with the
  next one. \<open>match_token s\<close> is the match at the start of \<open>s\<close> with the text after it;
  \<open>findall\<close> scans from left to right and goes on after each match.
\<close>

definition is_mantissa_char :: "char \<Rightarrow> bool" where
  "is_mantissa_char c = (is_digit c \<or> c = CHR ''.'')"

definition opt_sign :: "string \<Rightarrow> string \<times> string" where
  "opt_sign s =
     (case s of
        [] \<Rightarrow> ([], [])
      | c # cs \<Rightarrow> if is_sign c then ([c], cs) else ([], c # cs))"

definition match_token :: "string \<Rightarrow> (string \<times> string) option" where
  "match_token s =
     (let (sg, s1) = opt_sign s;
          mant = takeWhile is_mantissa_char s1;
          s2 = dropWhile is_mantissa_char s1
      in if mant = [] then None
         else case s2 of
           [] \<Rightarrow> None
         | d # s3 \<Rightarrow>
             if d \<noteq> CHR ''D'' then None
             else let (sg2, s4) = opt_sign s3;
                      ex = takeWhile is_digit s4;
                      s5 = dropWhile is_digit s4
                  in if ex = [] then None
                     else Some (sg @ mant @ [d] @ sg2 @ ex, s5))"

lemma opt_sign_length: "length (snd (opt_sign s)) \<le> length s"
  by (simp add: opt_sign_def split: list.splits)

lemma match_token_shorter:
  assumes "match_token s = Some (tok, rest)"
  shows "length rest < length s"
proof -
  obtain sg s1 where os: "opt_sign s = (sg, s1)" by (cases "opt_sign s")
  obtain d s3 where s2: "dropWhile is_mantissa_char s1 = d # s3"
    using assms by (auto simp: match_token_def os Let_def split: if_splits list.splits)
  obtain sg2 s4 where os2: "opt_sign s3 = (sg2, s4)" by (cases "opt_sign s3")
  have rest: "rest = dropWhile is_digit s4"
    using assms by (auto simp: match_token_def os s2 os2 Let_def split: if_splits)
  have "length rest \<le> length s4" by (simp add: rest length_dropWhile_le)
  also have "\<dots> \<le> length s3" using opt_sign_length [of s3] by (simp add: os2)
  also have "\<dots> < length (dropWhile is_mantissa_char s1)" by (simp add: s2)
  also have "\<dots> \<le> length s1" by (rule length_dropWhile_le)
  also have "\<dots> \<le> length s" using opt_sign_length [of s] by (simp add: os)
  finally show ?thesis .
qed

function findall :: "string \<Rightarrow> string list" where
  "findall [] = []"
| "findall (c # cs) =
     (case match_token (c # cs) of
        None \<Rightarrow> findall cs
      | Some (tok, rest) \<Rightarrow> tok # findall rest)"
  by pat_completeness auto
termination
  by (relation "measure length") (auto dest: match_token_shorter)

text \<open>
  \<^verbatim>\<open>float(val.replace('D', 'E'))\<close> on a token of the pattern. The token has a digit or
  a dot in it, so it spells neither \<^verbatim>\<open>inf\<close> nor \<^verbatim>\<open>nan\<close>: \<^verbatim>\<open>float\<close> reads a decimal
  literal or raises \<^verbatim>\<open>ValueError\<close> (the pattern lets through mantissas such as
  \<^verbatim>\<open>1.2.3\<close> and \<^verbatim>\<open>.\<close>).
\<close>

definition float_of_token :: "string \<Rightarrow> error + real" where
  "float_of_token tok =
     decimal_float (map (\<lambda>c. if c = CHR ''D'' then CHR ''E'' else c) tok)"

fun convert_all :: "string list \<Rightarrow> error + real list" where
  "convert_all [] = Inr []"
| "convert_all (tok # toks) =
     (case float_of_token tok of
        Inl err \<Rightarrow> Inl err
      | Inr v \<Rightarrow> (case convert_all toks of Inl err \<Rightarrow> Inl err | Inr vs \<Rightarrow> Inr (v # vs)))"

text \<open>
  \<^verbatim>\<open>
  values = []
  for ln in block:
      numbers = re.findall(r'[\-\+]?[0-9\.]+D[\-\+]?[0-9]+', ln)
      values.extend([float(val.replace('D', 'E')) for val in numbers])
  \<close>
  \<open>block_tokens\<close> is the tokens that the loop extracts, in order; \<open>block_values\<close> is the
  loop, which raises at the first token that does not convert.
\<close>

definition block_tokens :: "string list \<Rightarrow> string list" where
  "block_tokens block = concat (map findall block)"

fun block_values :: "string list \<Rightarrow> error + real list" where
  "block_values [] = Inr []"
| "block_values (l # ls) =
     (case convert_all (findall l) of
        Inl err \<Rightarrow> Inl err
      | Inr vs \<Rightarrow> (case block_values ls of Inl err \<Rightarrow> Inl err | Inr ws \<Rightarrow> Inr (vs @ ws)))"

subsection \<open>Step 2: ephemeris records and the parser\<close>

text \<open>
  One parsed record: \<^verbatim>\<open>dict(zip(fields, values))\<close> with the six fields of the
  timestamp added. The keys are the same for every record, so the dictionary is a
  record type (the field \<^verbatim>\<open>e\<close> is \<open>e_rec\<close> here); \<^verbatim>\<open>zip\<close> drops the values
  beyond the 29th.
\<close>

record entry =
  a0 :: real
  a1 :: real
  a2 :: real
  IODC :: real
  Crs :: real
  deltan :: real
  M0 :: real
  Cuc :: real
  e_rec :: real
  Cus :: real
  sqrt_a :: real
  toe :: real
  Cic :: real
  Omega0 :: real
  Cis :: real
  i0 :: real
  Crc :: real
  omega :: real
  Omegadot :: real
  idot :: real
  L2 :: real
  week :: real
  L2_P :: real
  acc :: real
  health :: real
  TGD :: real
  IODC2 :: real
  trans_time :: real
  spare :: real
  year :: int
  month :: int
  day :: int
  hour :: int
  minute :: int
  second :: pyfloat

definition make_entry :: "real list \<Rightarrow> int \<Rightarrow> int \<Rightarrow> int \<Rightarrow> int \<Rightarrow> int \<Rightarrow> pyfloat \<Rightarrow> entry" where
  "make_entry vs yr mo dy hr mn sc =
     \<lparr>a0 = vs ! 0,
       a1 = vs ! 1,
       a2 = vs ! 2,
       IODC = vs ! 3,
       Crs = vs ! 4,
       deltan = vs ! 5,
       M0 = vs ! 6,
       Cuc = vs ! 7,
       e_rec = vs ! 8,
       Cus = vs ! 9,
       sqrt_a = vs ! 10,
       toe = vs ! 11,
       Cic = vs ! 12,
       Omega0 = vs ! 13,
       Cis = vs ! 14,
       i0 = vs ! 15,
       Crc = vs ! 16,
       omega = vs ! 17,
       Omegadot = vs ! 18,
       idot = vs ! 19,
       L2 = vs ! 20,
       week = vs ! 21,
       L2_P = vs ! 22,
       acc = vs ! 23,
       health = vs ! 24,
       TGD = vs ! 25,
       IODC2 = vs ! 26,
       trans_time = vs ! 27,
       spare = vs ! 28,
       year = yr, month = mo, day = dy, hour = hr, minute = mn, second = sc\<rparr>"

text \<open>
  \<^verbatim>\<open>
  yr = int(block[0][3:8].strip())
  mo = int(block[0][8:11].strip())
  dy = int(block[0][11:14].strip())
  hr = int(block[0][14:17].strip())
  mn = int(block[0][17:20].strip())
  sc = float(block[0][20:23].strip())
  \<close>
\<close>

definition line_timestamp :: "string \<Rightarrow> error + int \<times> int \<times> int \<times> int \<times> int \<times> pyfloat" where
  "line_timestamp l0 =
     (case py_int (strip (slice 3 8 l0)) of Inl err \<Rightarrow> Inl err | Inr yr \<Rightarrow>
      case py_int (strip (slice 8 11 l0)) of Inl err \<Rightarrow> Inl err | Inr mo \<Rightarrow>
      case py_int (strip (slice 11 14 l0)) of Inl err \<Rightarrow> Inl err | Inr dy \<Rightarrow>
      case py_int (strip (slice 14 17 l0)) of Inl err \<Rightarrow> Inl err | Inr hr \<Rightarrow>
      case py_int (strip (slice 17 20 l0)) of Inl err \<Rightarrow> Inl err | Inr mn \<Rightarrow>
      case py_float (strip (slice 20 23 l0)) of Inl err \<Rightarrow> Inl err | Inr sc \<Rightarrow>
      Inr (yr, mo, dy, hr, mn, sc))"

text \<open>
  \<^verbatim>\<open>nav_data\<close>, a dictionary from satellite identifier to the list of its records.
  \<open>records_of\<close> reads a key, with no records for a key that is absent;
  \<open>setdefault\<close> is \<^verbatim>\<open>nav_data.setdefault(prn, [])\<close>.
\<close>

type_synonym nav = "string \<rightharpoonup> entry list"

definition records_of :: "nav \<Rightarrow> string \<Rightarrow> entry list" where
  "records_of nav prn = (case nav prn of None \<Rightarrow> [] | Some rs \<Rightarrow> rs)"

definition setdefault :: "nav \<Rightarrow> string \<Rightarrow> nav" where
  "setdefault nav prn = (case nav prn of None \<Rightarrow> nav(prn \<mapsto> []) | Some rs \<Rightarrow> nav)"

definition block_prn :: "string list \<Rightarrow> error + string" where
  "block_prn block =
     (case block of [] \<Rightarrow> Inl IndexError | l0 # _ \<Rightarrow> Inr (strip (slice 0 3 l0)))"

definition block_timestamp :: "string list \<Rightarrow> error + int \<times> int \<times> int \<times> int \<times> int \<times> pyfloat" where
  "block_timestamp block =
     (case block of [] \<Rightarrow> Inl IndexError | l0 # _ \<Rightarrow> line_timestamp l0)"

text \<open>
  The body of the \<^verbatim>\<open>while len(lines) >= 8\<close> loop on one block, from
  \<^verbatim>\<open>prn = block[0][:3].strip()\<close> to \<^verbatim>\<open>nav_data[prn].append(entry)\<close>. Both
  \<^verbatim>\<open>continue\<close> statements return the dictionary as it is at that point.
\<close>

definition process_block :: "nav \<Rightarrow> string list \<Rightarrow> error + nav" where
  "process_block nav block =
     (case block_prn block of
        Inl err \<Rightarrow> Inl err
      | Inr prn \<Rightarrow>
          if prn = [] then Inr nav
          else
            let nav1 = setdefault nav prn in
            case block_timestamp block of
              Inl err \<Rightarrow> Inl err
            | Inr (yr, mo, dy, hr, mn, sc) \<Rightarrow>
                (case block_values block of
                   Inl err \<Rightarrow> Inl err
                 | Inr vs \<Rightarrow>
                     if length vs < 29 then Inr nav1
                     else Inr (nav1(prn \<mapsto>
                            records_of nav1 prn @ [make_entry vs yr mo dy hr mn sc]))))"

function parse_blocks :: "nav \<Rightarrow> string list \<Rightarrow> error + nav" where
  "parse_blocks nav lines =
     (if 8 \<le> length lines
      then case process_block nav (take 8 lines) of
             Inl err \<Rightarrow> Inl err
           | Inr nav' \<Rightarrow> parse_blocks nav' (drop 8 lines)
      else Inr nav)"
  by pat_completeness auto
termination
  by (relation "measure (\<lambda>(nav, lines). length lines)") auto

declare parse_blocks.simps [simp del]

text \<open>
  \<^verbatim>\<open>
  while 'END OF HEADER' not in lines[0]:
      lines.pop(0)
  lines.pop(0)
  \<close>
  \<^verbatim>\<open>lines[0]\<close> raises \<^verbatim>\<open>IndexError\<close> once the list is empty.
\<close>

fun skip_header :: "string list \<Rightarrow> error + string list" where
  "skip_header [] = Inl IndexError"
| "skip_header (l # ls) = (if contains ''END OF HEADER'' l then Inr ls else skip_header ls)"

text \<open>
  \<open>parse_rinex_nav\<close> on the lines that \<^verbatim>\<open>read_file_lines\<close> returns. An exception
  leaves the function with no dictionary at all.
\<close>

definition parse_rinex_nav :: "string list \<Rightarrow> error + nav" where
  "parse_rinex_nav lines =
     (case skip_header lines of
        Inl err \<Rightarrow> Inl err
      | Inr body \<Rightarrow> parse_blocks Map.empty body)"

subsection \<open>Step 4: selecting the ephemeris and the time from ephemeris\<close>

text \<open>
  \<^verbatim>\<open>min(records, key=lambda r: abs(t - r['toe']))\<close>: Python's \<^verbatim>\<open>min\<close> walks the
  sequence once, keeps the first item and replaces it only by an item whose key is
  strictly smaller; on an empty sequence it raises \<^verbatim>\<open>ValueError\<close>.
\<close>

fun min_loop :: "('a \<Rightarrow> real) \<Rightarrow> 'a \<Rightarrow> 'a list \<Rightarrow> 'a" where
  "min_loop key best [] = best"
| "min_loop key best (x # xs) =
     (if key x < key best then min_loop key x xs else min_loop key best xs)"

definition py_min :: "('a \<Rightarrow> real) \<Rightarrow> 'a list \<Rightarrow> error + 'a" where
  "py_min key xs = (case xs of [] \<Rightarrow> Inl ValueError | x # rest \<Rightarrow> Inr (min_loop key x rest))"

text \<open>Line 110 of \<^verbatim>\<open>compute_positions\<close>: \<^verbatim>\<open>eph = min(records, key=...)\<close>.\<close>

definition select_ephemeris :: "real \<Rightarrow> entry list \<Rightarrow> error + entry" where
  "select_ephemeris t records = py_min (\<lambda>r. \<bar>t - toe r\<bar>) records"

text \<open>
  Lines 118 to 120 of \<^verbatim>\<open>compute_positions\<close>:
  \<^verbatim>\<open>
  tk = t - toe
  if tk > 302400: tk -= 604800
  if tk < -302400: tk += 604800
  \<close>
  Two \<^verbatim>\<open>if\<close> statements in sequence, each run at most once.
\<close>

definition time_from_ephemeris :: "real \<Rightarrow> real \<Rightarrow> real" where
  "time_from_ephemeris t toe_r =
     (let tk = t - toe_r;
          tk = (if tk > 302400 then tk - 604800 else tk);
          tk = (if tk < - 302400 then tk + 604800 else tk)
      in tk)"

subsection \<open>Step 3: time conversion and sampling\<close>

text \<open>
  Python's \<^verbatim>\<open>x % m\<close> on floats takes the sign of the divisor: it is
  \<open>x - m * floor (x / m)\<close>.
\<close>

definition py_fmod :: "real \<Rightarrow> real \<Rightarrow> real" where
  "py_fmod x m = x - m * of_int \<lfloor>x / m\<rfloor>"

text \<open>
  \<^verbatim>\<open>
  def convert_to_gps_seconds(y, m, d, h, mi, s):
      a = (14 - m) // 12
      y_new = y + 4800 - a
      m_new = m + 12*a - 3
      jd = d + ((153*m_new + 2)//5) + 365*y_new + y_new//4 - y_new//100 + y_new//400 - 32045
      jd += (h - 12)/24 + mi/1440 + s/86400
      return ((jd - 2444244.5) * 86400) % (7*86400)
  \<close>
  The calendar fields are the ints the parser reads, the seconds a float.
\<close>

definition convert_to_gps_seconds :: "int \<Rightarrow> int \<Rightarrow> int \<Rightarrow> int \<Rightarrow> int \<Rightarrow> real \<Rightarrow> real" where
  "convert_to_gps_seconds y m d h mi s =
     (let a = (14 - m) div 12;
          y_new = y + 4800 - a;
          m_new = m + 12 * a - 3;
          jd = d + ((153 * m_new + 2) div 5) + 365 * y_new + y_new div 4 - y_new div 100
               + y_new div 400 - 32045;
          jd = real_of_int jd + (real_of_int (h - 12) / 24 + real_of_int mi / 1440 + s / 86400)
      in py_fmod ((jd - 2444244.5) * 86400) (7 * 86400))"



subsection \<open>Step 4: Kepler's equation\<close>

text \<open>
  \<^verbatim>\<open>
  def solve_kepler(M, e, tol=1e-12, max_iter=10):
      E = M
      for _ in range(max_iter):
          E_next = E - (E - e*sin(E) - M) / (1 - e*cos(E))
          if abs(E_next - E) < tol:
              break
          E = E_next
      return E
  \<close>
  The division of two Python floats raises \<^verbatim>\<open>ZeroDivisionError\<close> when the divisor is
  zero. The loop is a recursion on the iterations that \<^verbatim>\<open>range(max_iter)\<close> still holds;
  the last argument counts the loop bodies entered so far, a ghost value that the result
  of \<open>solve_kepler\<close> does not depend on.
\<close>

definition kepler_denominator :: "real \<Rightarrow> real \<Rightarrow> real" where
  "kepler_denominator e E = 1 - e * cos E"

definition kepler_next :: "real \<Rightarrow> real \<Rightarrow> real \<Rightarrow> real" where
  "kepler_next M e E = E - (E - e * sin E - M) / kepler_denominator e E"

fun kepler_loop :: "nat \<Rightarrow> real \<Rightarrow> real \<Rightarrow> real \<Rightarrow> real \<Rightarrow> nat \<Rightarrow> (error + real) \<times> nat" where
  "kepler_loop 0 tol M e E k = (Inr E, k)"
| "kepler_loop (Suc n) tol M e E k =
     (if kepler_denominator e E = 0 then (Inl ZeroDivisionError, Suc k)
      else let E_next = kepler_next M e E in
        if \<bar>E_next - E\<bar> < tol then (Inr E, Suc k)
        else kepler_loop n tol M e E_next (Suc k))"

definition solve_kepler_run :: "real \<Rightarrow> real \<Rightarrow> real \<Rightarrow> nat \<Rightarrow> (error + real) \<times> nat" where
  "solve_kepler_run M e tol max_iter = kepler_loop max_iter tol M e M 0"

definition solve_kepler_with :: "real \<Rightarrow> real \<Rightarrow> real \<Rightarrow> nat \<Rightarrow> error + real" where
  "solve_kepler_with M e tol max_iter = fst (solve_kepler_run M e tol max_iter)"

text \<open>The call with the default arguments \<^verbatim>\<open>tol=1e-12, max_iter=10\<close>.\<close>

definition solve_kepler :: "real \<Rightarrow> real \<Rightarrow> error + real" where
  "solve_kepler M e = solve_kepler_with M e (1 / 10 ^ 12) 10"

text \<open>
  The iterates of the update as a sequence, to state what the loop returns:
  \<open>kepler_iterate M e i\<close> is the value of \<^verbatim>\<open>E\<close> after \<open>i\<close> assignments
  \<^verbatim>\<open>E = E_next\<close>.
\<close>

fun kepler_iterate :: "real \<Rightarrow> real \<Rightarrow> nat \<Rightarrow> real" where
  "kepler_iterate M e 0 = M"
| "kepler_iterate M e (Suc i) = kepler_next M e (kepler_iterate M e i)"

section \<open>Properties\<close>

subsection \<open>Auxiliary facts\<close>

lemma py_fmod_range:
  assumes "0 < m"
  shows "0 \<le> py_fmod x m \<and> py_fmod x m < m"
proof -
  have lo: "of_int \<lfloor>x / m\<rfloor> \<le> x / m" by (rule of_int_floor_le)
  have hi: "x / m < of_int \<lfloor>x / m\<rfloor> + 1" by linarith
  have "of_int \<lfloor>x / m\<rfloor> * m \<le> x"
    by (rule pos_le_divide_eq [THEN iffD1, OF assms lo])
  moreover have "x < (of_int \<lfloor>x / m\<rfloor> + 1) * m"
    by (rule pos_divide_less_eq [THEN iffD1, OF assms hi])
  ultimately show ?thesis by (simp add: py_fmod_def algebra_simps)
qed



lemma min_loop_split:
  "\<exists>ys zs. b # xs = ys @ min_loop key b xs # zs
      \<and> (\<forall>y\<in>set ys. key (min_loop key b xs) < key y)
      \<and> (\<forall>z\<in>set zs. key (min_loop key b xs) \<le> key z)"
proof (induction xs arbitrary: b)
  case Nil
  show ?case by (intro exI [of _ "[]"]) simp
next
  case (Cons x xs)
  show ?case
  proof (cases "key x < key b")
    case True
    define r where "r = min_loop key x xs"
    obtain ys zs where split: "x # xs = ys @ r # zs"
      and before: "\<forall>y\<in>set ys. key r < key y" and after: "\<forall>z\<in>set zs. key r \<le> key z"
      using Cons.IH [of x] unfolding r_def by blast
    have "key r \<le> key x"
    proof (cases ys)
      case Nil
      with split show ?thesis by simp
    next
      case (Cons y ys')
      with split have "x \<in> set ys" by simp
      with before show ?thesis by fastforce
    qed
    with True have "key r < key b" by simp
    with before have "\<forall>y\<in>set (b # ys). key r < key y" by simp
    moreover have "b # x # xs = (b # ys) @ r # zs" using split by simp
    moreover have "min_loop key b (x # xs) = r" using True by (simp add: r_def)
    ultimately show ?thesis using after by blast
  next
    case False
    define r where "r = min_loop key b xs"
    obtain ys zs where split: "b # xs = ys @ r # zs"
      and before: "\<forall>y\<in>set ys. key r < key y" and after: "\<forall>z\<in>set zs. key r \<le> key z"
      using Cons.IH [of b] unfolding r_def by blast
    have res: "min_loop key b (x # xs) = r" using False by (simp add: r_def)
    show ?thesis
    proof (cases ys)
      case Nil
      with split have "r = b" "zs = xs" by simp_all
      with False after have "\<forall>z\<in>set (x # xs). key r \<le> key z" by simp
      moreover have "b # x # xs = [] @ r # (x # xs)" using \<open>r = b\<close> by simp
      ultimately show ?thesis unfolding res by (metis empty_iff list.set(1))
    next
      case (Cons y ys')
      with split have y: "y = b" and xs: "xs = ys' @ r # zs" by simp_all
      from before Cons y have "key r < key b" by simp
      with False have "key r < key x" by simp
      with before Cons y have "\<forall>y\<in>set (b # x # ys'). key r < key y" by simp
      moreover have "b # x # xs = (b # x # ys') @ r # zs" using xs by simp
      ultimately show ?thesis unfolding res using after by blast
    qed
  qed
qed

lemma py_min_first:
  assumes "xs \<noteq> []"
  shows "\<exists>i<length xs.
        py_min key xs = Inr (xs ! i)
        \<and> (\<forall>j<length xs. key (xs ! i) \<le> key (xs ! j))
        \<and> (\<forall>j<i. key (xs ! i) < key (xs ! j))"
proof -
  obtain b rest where xs: "xs = b # rest" using assms by (cases xs) auto
  define r where "r = min_loop key b rest"
  obtain ys zs where split: "xs = ys @ r # zs"
    and before: "\<forall>y\<in>set ys. key r < key y" and after: "\<forall>z\<in>set zs. key r \<le> key z"
    using min_loop_split [of b rest key] unfolding r_def xs by blast
  have at: "xs ! length ys = r" by (simp add: split)
  have len: "length ys < length xs" by (simp add: split)
  have res: "py_min key xs = Inr (xs ! length ys)" by (simp add: at) (simp add: xs py_min_def r_def)
  have all: "key r \<le> key (xs ! j)" if "j < length xs" for j
  proof -
    have "xs ! j \<in> set xs" using that by simp
    then have "xs ! j \<in> set ys \<or> xs ! j = r \<or> xs ! j \<in> set zs" by (auto simp: split)
    with before after show ?thesis by fastforce
  qed
  have strict: "key r < key (xs ! j)" if "j < length ys" for j
  proof -
    have "xs ! j = ys ! j" using that by (simp add: split nth_append)
    with that before show ?thesis by simp
  qed
  from len res all strict show ?thesis unfolding at [symmetric] by blast
qed


lemma kepler_loop_count: "snd (kepler_loop n tol M e E k) \<le> k + n"
proof (induction n arbitrary: E k)
  case 0
  show ?case by simp
next
  case (Suc n)
  have "snd (kepler_loop n tol M e (kepler_next M e E) (Suc k)) \<le> Suc k + n"
    by (rule Suc.IH)
  then show ?case by (simp add: Let_def)
qed

lemma kepler_loop_stops:
  "i < n \<Longrightarrow>
   \<forall>j\<le>i. kepler_denominator e (kepler_iterate M e (a + j)) \<noteq> 0 \<Longrightarrow>
   \<forall>j<i. \<not> \<bar>kepler_iterate M e (Suc (a + j)) - kepler_iterate M e (a + j)\<bar> < tol \<Longrightarrow>
   \<bar>kepler_iterate M e (Suc (a + i)) - kepler_iterate M e (a + i)\<bar> < tol \<Longrightarrow>
   kepler_loop n tol M e (kepler_iterate M e a) k = (Inr (kepler_iterate M e (a + i)), Suc (k + i))"
proof (induction i arbitrary: n a k)
  case 0
  then obtain m where n: "n = Suc m" by (cases n) auto
  from 0 show ?case by (simp add: n)
next
  case (Suc i)
  then obtain m where n: "n = Suc m" by (cases n) auto
  have d0: "kepler_denominator e (kepler_iterate M e a) \<noteq> 0"
    using Suc.prems(2) by (metis add.right_neutral le0)
  have c0: "\<not> \<bar>kepler_iterate M e (Suc a) - kepler_iterate M e a\<bar> < tol"
    using Suc.prems(3) by (metis add.right_neutral zero_less_Suc)
  have "kepler_loop m tol M e (kepler_iterate M e (Suc a)) (Suc k)
        = (Inr (kepler_iterate M e (Suc a + i)), Suc (Suc k + i))"
  proof (rule Suc.IH)
    show "i < m" using Suc.prems(1) n by simp
    show "\<forall>j\<le>i. kepler_denominator e (kepler_iterate M e (Suc a + j)) \<noteq> 0"
    proof (intro allI impI)
      fix j assume "j \<le> i"
      then have "Suc j \<le> Suc i" by simp
      with Suc.prems(2) have "kepler_denominator e (kepler_iterate M e (a + Suc j)) \<noteq> 0" by blast
      then show "kepler_denominator e (kepler_iterate M e (Suc a + j)) \<noteq> 0" by simp
    qed
    show "\<forall>j<i. \<not> \<bar>kepler_iterate M e (Suc (Suc a + j)) - kepler_iterate M e (Suc a + j)\<bar> < tol"
    proof (intro allI impI)
      fix j assume "j < i"
      then have "Suc j < Suc i" by simp
      with Suc.prems(3) have "\<not> \<bar>kepler_iterate M e (Suc (a + Suc j)) - kepler_iterate M e (a + Suc j)\<bar> < tol" by blast
      then show "\<not> \<bar>kepler_iterate M e (Suc (Suc a + j)) - kepler_iterate M e (Suc a + j)\<bar> < tol" by simp
    qed
    show "\<bar>kepler_iterate M e (Suc (Suc a + i)) - kepler_iterate M e (Suc a + i)\<bar> < tol"
      using Suc.prems(4) by simp
  qed
  with d0 c0 show ?case by (simp add: n)
qed

lemma kepler_loop_cap:
  "\<forall>j<n. kepler_denominator e (kepler_iterate M e (a + j)) \<noteq> 0
         \<and> \<not> \<bar>kepler_iterate M e (Suc (a + j)) - kepler_iterate M e (a + j)\<bar> < tol \<Longrightarrow>
   kepler_loop n tol M e (kepler_iterate M e a) k = (Inr (kepler_iterate M e (a + n)), k + n)"
proof (induction n arbitrary: a k)
  case 0
  show ?case by simp
next
  case (Suc n)
  have h0: "kepler_denominator e (kepler_iterate M e a) \<noteq> 0"
    "\<not> \<bar>kepler_iterate M e (Suc a) - kepler_iterate M e a\<bar> < tol"
    using Suc.prems by (metis add.right_neutral zero_less_Suc)+
  have "kepler_loop n tol M e (kepler_iterate M e (Suc a)) (Suc k)
        = (Inr (kepler_iterate M e (Suc a + n)), Suc k + n)"
  proof (rule Suc.IH, intro allI impI)
    fix j assume "j < n"
    then have "Suc j < Suc n" by simp
    with Suc.prems have "kepler_denominator e (kepler_iterate M e (a + Suc j)) \<noteq> 0
         \<and> \<not> \<bar>kepler_iterate M e (Suc (a + Suc j)) - kepler_iterate M e (a + Suc j)\<bar> < tol" by blast
    then show "kepler_denominator e (kepler_iterate M e (Suc a + j)) \<noteq> 0
         \<and> \<not> \<bar>kepler_iterate M e (Suc (Suc a + j)) - kepler_iterate M e (Suc a + j)\<bar> < tol" by simp
  qed
  with h0 show ?case by simp
qed

lemma denominator_pos_aux: "0 \<le> e \<Longrightarrow> e < 1 \<Longrightarrow> 0 < kepler_denominator e E"
proof -
  assume e: "0 \<le> e" "e < 1"
  have "e * cos E \<le> e * 1" using e(1) by (intro mult_left_mono) auto
  with e(2) show ?thesis by (simp add: kepler_denominator_def)
qed

lemma denominator_pos_abs: "\<bar>e\<bar> < 1 \<Longrightarrow> 0 < kepler_denominator e E"
proof -
  assume e: "\<bar>e\<bar> < 1"
  have "e * cos E \<le> \<bar>e * cos E\<bar>" by simp
  also have "\<dots> = \<bar>e\<bar> * \<bar>cos E\<bar>" by (rule abs_mult)
  also have "\<dots> \<le> \<bar>e\<bar> * 1" by (intro mult_left_mono) auto
  finally show ?thesis using e by (simp add: kepler_denominator_def)
qed

lemma sin_one_ge_half: "1 / 2 \<le> sin (1::real)"
proof -
  have "pi / 6 \<le> 1" using pi_less_4 by simp
  moreover have "1 \<le> pi / 2" using pi_ge_two by simp
  moreover have "- (pi / 2) \<le> pi / 6" using pi_gt_zero by simp
  ultimately have "sin (pi / 6) \<le> sin 1" by (intro sin_monotone_2pi_le) auto
  then show ?thesis by (simp add: sin_30)
qed

lemma first_update_moves: "1 / 6 \<le> kepler_iterate 1 (1 / 2) 1 - 1"
proof -
  have c: "cos (1::real) \<le> 1" "- 1 \<le> cos (1::real)" by simp_all
  have d: "0 < 1 - cos (1::real) / 2" "1 - cos (1::real) / 2 \<le> 3 / 2" using c by linarith+
  have "kepler_iterate 1 (1 / 2) 1 - 1 = (sin 1 / 2) / (1 - cos 1 / 2)"
    by (simp add: kepler_next_def kepler_denominator_def)
  moreover have "1 / 6 \<le> (sin 1 / 2) / (1 - cos (1::real) / 2)"
  proof -
    have "1 / 6 * (1 - cos (1::real) / 2) \<le> sin (1::real) / 2"
      using d(2) sin_one_ge_half by argo
    then show ?thesis by (rule pos_le_divide_eq [THEN iffD2, OF d(1)])
  qed
  ultimately show ?thesis by simp
qed

lemma kepler_loop_total:
  "\<forall>E. kepler_denominator e E \<noteq> 0 \<Longrightarrow> \<exists>r. fst (kepler_loop n tol M e E k) = Inr r"
  by (induction n arbitrary: E k) (auto simp: Let_def)

lemma skip_header_without_terminator:
  "\<forall>l\<in>set lines. \<not> contains ''END OF HEADER'' l \<Longrightarrow> skip_header lines = Inl IndexError"
  by (induction lines) simp_all

lemma skip_header_error: "skip_header lines = Inl err \<Longrightarrow> err = IndexError"
  by (induction lines) (auto split: if_splits)

lemma convert_all_error: "convert_all toks = Inl err \<Longrightarrow> err = ValueError"
  by (induction toks)
    (auto simp: float_of_token_def decimal_float_def split: sum.splits prod.splits option.splits)

lemma block_values_error: "block_values block = Inl err \<Longrightarrow> err = ValueError"
  by (induction block) (auto split: sum.splits dest: convert_all_error)

lemma py_int_error: "py_int s = Inl err \<Longrightarrow> err = ValueError"
  by (auto simp: py_int_def split: prod.splits if_splits)

lemma py_float_error: "py_float s = Inl err \<Longrightarrow> err = ValueError"
  by (auto simp: py_float_def decimal_float_def Let_def
      split: prod.splits if_splits sum.splits option.splits)

lemma line_timestamp_error: "line_timestamp l0 = Inl err \<Longrightarrow> err = ValueError"
  by (auto simp: line_timestamp_def split: sum.splits dest: py_int_error py_float_error)

lemma process_block_error:
  "process_block nav block = Inl err \<Longrightarrow> err = IndexError \<or> err = ValueError"
  by (auto simp: process_block_def block_prn_def block_timestamp_def Let_def
      simp del: block_values.simps
      split: list.splits sum.splits if_splits prod.splits
      dest: line_timestamp_error block_values_error)

lemma parse_blocks_error:
  "parse_blocks nav lines = Inl err \<Longrightarrow> err = IndexError \<or> err = ValueError"
proof (induction nav lines rule: parse_blocks.induct)
  case (1 nav lines)
  show ?case
  proof (cases "process_block nav (take 8 lines)")
    case (Inl err')
    with "1.prems" have "err = err'"
      by (subst (asm) parse_blocks.simps) (simp split: if_splits)
    with Inl show ?thesis by (auto dest: process_block_error)
  next
    case (Inr nav')
    from "1.prems" have long: "8 \<le> length lines"
      by (subst (asm) parse_blocks.simps) (simp split: if_splits)
    with "1.prems" Inr have "parse_blocks nav' (drop 8 lines) = Inl err"
      by (subst (asm) parse_blocks.simps) simp
    with "1.IH" [OF long Inr] show ?thesis .
  qed
qed

text \<open>Whatever the input, the parser fails with a built-in exception only.\<close>

lemma parse_rinex_nav_error:
  "parse_rinex_nav lines = Inl err \<Longrightarrow> err = IndexError \<or> err = ValueError"
  by (auto simp: parse_rinex_nav_def split: sum.splits dest: skip_header_error parse_blocks_error)

lemma convert_all_length: "convert_all toks = Inr vs \<Longrightarrow> length vs = length toks"
  by (induction toks arbitrary: vs) (auto split: sum.splits)

lemma block_values_length:
  "block_values block = Inr vs \<Longrightarrow> length vs = length (block_tokens block)"
proof (induction block arbitrary: vs)
  case Nil
  then show ?case by (simp add: block_tokens_def)
next
  case (Cons l ls)
  from Cons.prems obtain us ws where us: "convert_all (findall l) = Inr us"
    and ws: "block_values ls = Inr ws" and vs: "vs = us @ ws"
    by (auto split: sum.splits)
  have "length ws = length (block_tokens ls)" using ws by (rule Cons.IH)
  moreover have "length us = length (findall l)" using us by (rule convert_all_length)
  ultimately show ?case by (simp add: vs block_tokens_def)
qed

lemma records_of_setdefault: "records_of (setdefault nav prn) k = records_of nav k"
  by (simp add: records_of_def setdefault_def split: option.splits)

lemma parse_blocks_step:
  "length block = 8 \<Longrightarrow> process_block nav block = Inr nav' \<Longrightarrow>
     parse_blocks nav (block @ rest) = parse_blocks nav' rest"
  by (subst parse_blocks.simps) simp

text \<open>
  Every token that \<open>findall\<close> returns is read by \<^verbatim>\<open>float\<close> as a decimal literal or not
  at all, which is what \<open>float_of_token\<close> does.
\<close>

lemma mantissa_char_plain:
  "is_mantissa_char c \<Longrightarrow>
     \<not> is_number_space c \<and> c \<noteq> CHR ''-'' \<and> c \<noteq> CHR ''+'' \<and> to_lower c = c
     \<and> c \<noteq> CHR ''i'' \<and> c \<noteq> CHR ''n'' \<and> c \<noteq> CHR ''D''"
  by (auto simp: is_mantissa_char_def is_digit_def is_number_space_def to_lower_def)

lemma sign_char_plain: "is_sign c \<Longrightarrow> \<not> is_number_space c \<and> c \<noteq> CHR ''D''"
  by (auto simp: is_sign_def is_number_space_def)

lemma digit_char_plain: "is_digit c \<Longrightarrow> \<not> is_number_space c \<and> c \<noteq> CHR ''D''"
  by (auto simp: is_digit_def is_number_space_def)

lemma strip_by_id:
  "s \<noteq> [] \<Longrightarrow> \<not> p (hd s) \<Longrightarrow> \<not> p (last s) \<Longrightarrow> strip_by p s = s"
proof -
  assume ne: "s \<noteq> []" and h: "\<not> p (hd s)" and l: "\<not> p (last s)"
  obtain a as where a: "s = a # as" using ne by (cases s) auto
  obtain ys y where y: "s = ys @ [y]" using ne by (cases s rule: rev_cases) auto
  have front: "dropWhile p s = s" using h by (simp add: a)
  have "\<not> p y" using l by (simp add: y)
  then have "dropWhile p (rev s) = rev s" by (simp add: y)
  with front show ?thesis by (simp add: strip_by_def)
qed

lemma py_float_decimal:
  assumes "split_sign (strip_by is_number_space s) = (neg, h # body)" and "is_mantissa_char h"
  shows "py_float s = (case decimal_float s of Inl err \<Rightarrow> Inl err | Inr r \<Rightarrow> Inr (Finite r))"
  using assms mantissa_char_plain [of h]
  by (auto simp: py_float_def)

lemma match_token_shape:
  assumes "match_token s = Some (tok, rest)"
  shows "\<exists>sg m mant sg2 x ex. tok = sg @ (m # mant) @ [CHR ''D''] @ sg2 @ ex @ [x]
           \<and> (sg = [] \<or> (\<exists>c. sg = [c] \<and> is_sign c)) \<and> is_mantissa_char m \<and> is_digit x"
proof -
  obtain sg s1 where os: "opt_sign s = (sg, s1)" by (cases "opt_sign s")
  have sg: "sg = [] \<or> (\<exists>c. sg = [c] \<and> is_sign c)"
    using os by (auto simp: opt_sign_def split: list.splits if_splits)
  obtain d s3 where s2: "dropWhile is_mantissa_char s1 = d # s3"
    using assms by (auto simp: match_token_def os Let_def split: if_splits list.splits)
  obtain sg2 s4 where os2: "opt_sign s3 = (sg2, s4)" by (cases "opt_sign s3")
  have d: "d = CHR ''D''" and mant: "takeWhile is_mantissa_char s1 \<noteq> []"
    and ex: "takeWhile is_digit s4 \<noteq> []"
    and tok: "tok = sg @ takeWhile is_mantissa_char s1 @ [d] @ sg2 @ takeWhile is_digit s4"
    using assms by (auto simp: match_token_def os s2 os2 Let_def split: if_splits)
  obtain m ms where m: "takeWhile is_mantissa_char s1 = m # ms" using mant by (cases "takeWhile is_mantissa_char s1") auto
  have "m \<in> set (takeWhile is_mantissa_char s1)" by (simp add: m)
  then have mc: "is_mantissa_char m" by (rule set_takeWhileD [THEN conjunct2])
  obtain es x where x: "takeWhile is_digit s4 = es @ [x]" using ex by (cases "takeWhile is_digit s4" rule: rev_cases) auto
  have "x \<in> set (takeWhile is_digit s4)" by (simp add: x)
  then have xd: "is_digit x" by (rule set_takeWhileD [THEN conjunct2])
  from tok sg mc xd show ?thesis unfolding m x d by blast
qed

lemma float_of_token_is_float:
  assumes "match_token s = Some (tok, rest)"
  shows "py_float (map (\<lambda>c. if c = CHR ''D'' then CHR ''E'' else c) tok)
         = (case float_of_token tok of Inl err \<Rightarrow> Inl err | Inr r \<Rightarrow> Inr (Finite r))"
proof -
  let ?f = "\<lambda>c. if c = CHR ''D'' then CHR ''E'' else c"
  obtain sg m mant sg2 x ex where tok: "tok = sg @ (m # mant) @ [CHR ''D''] @ sg2 @ ex @ [x]"
    and sg: "sg = [] \<or> (\<exists>c. sg = [c] \<and> is_sign c)" and m: "is_mantissa_char m" and x: "is_digit x"
    using match_token_shape [OF assms] by blast
  have fm: "?f m = m" using mantissa_char_plain [OF m] by simp
  have fx: "?f x = x" using digit_char_plain [OF x] by simp
  define tl' where "tl' = map ?f mant @ [CHR ''E''] @ map ?f sg2 @ map ?f ex @ [x]"
  have "\<exists>neg. split_sign (strip_by is_number_space (map ?f tok)) = (neg, m # tl')"
  proof (cases "sg = []")
    case True
    then have t: "map ?f tok = m # tl'" by (simp add: tok fm fx tl'_def)
    have "strip_by is_number_space (m # tl') = m # tl'"
      using mantissa_char_plain [OF m] digit_char_plain [OF x]
      by (intro strip_by_id) (simp_all add: tl'_def)
    then show ?thesis using mantissa_char_plain [OF m] by (auto simp: t split_sign_def)
  next
    case False
    with sg obtain c where c: "sg = [c]" "is_sign c" by blast
    then have fc: "?f c = c" using sign_char_plain by simp
    have t: "map ?f tok = c # m # tl'" by (simp add: tok c fc fm fx tl'_def)
    have "strip_by is_number_space (c # m # tl') = c # m # tl'"
      using sign_char_plain [OF c(2)] digit_char_plain [OF x]
      by (intro strip_by_id) (simp_all add: tl'_def)
    then show ?thesis using c(2) by (auto simp: t split_sign_def is_sign_def)
  qed
  then obtain neg where "split_sign (strip_by is_number_space (map ?f tok)) = (neg, m # tl')" ..
  from py_float_decimal [OF this m] show ?thesis by (simp add: float_of_token_def)
qed

lemma findall_tokens_matched:
  "tok \<in> set (findall l) \<Longrightarrow> \<exists>s rest. match_token s = Some (tok, rest)"
proof (induction l rule: findall.induct)
  case 1
  then show ?case by simp
next
  case (2 c cs)
  show ?case
  proof (cases "match_token (c # cs)")
    case None
    with 2 show ?thesis by simp
  next
    case (Some p)
    obtain t rest where p: "p = (t, rest)" by (cases p)
    from 2 Some p show ?thesis by auto
  qed
qed

lemma findall_tokens_float:
  "tok \<in> set (findall l) \<Longrightarrow>
     py_float (map (\<lambda>c. if c = CHR ''D'' then CHR ''E'' else c) tok)
       = (case float_of_token tok of Inl err \<Rightarrow> Inl err | Inr r \<Rightarrow> Inr (Finite r))"
  using findall_tokens_matched float_of_token_is_float by blast

text \<open>The GPS epoch, 6 January 1980 at 0 h, is second 0 of its week.\<close>

lemma convert_to_gps_seconds_epoch: "convert_to_gps_seconds 1980 1 6 0 0 0 = 0"
  by (simp add: convert_to_gps_seconds_def py_fmod_def)


text \<open>
  C6, as stated: for every \<open>M\<close> and every \<open>e\<close> the loop raises no error. It fails: the
  division of the update raises when its divisor \<open>1 - e * cos E\<close> is zero, and at
  \<open>M = 0\<close>, \<open>e = 1\<close> the first divisor is \<open>1 - cos 0 = 0\<close>.
\<close>

theorem solve_kepler_counterexample:
  "kepler_denominator 1 0 = 0 \<and> solve_kepler 0 1 = Inl ZeroDivisionError"
  by (simp add: solve_kepler_def solve_kepler_with_def solve_kepler_run_def
      eval_nat_numeral kepler_denominator_def)

text \<open>
  C6, amended: \<open>solve_kepler\<close> is the loop run with tolerance \<open>1e-12\<close> and at most 10
  iterations. For every tolerance and cap, the loop body is entered at most
  \<open>max_iter\<close> times. As long as no divisor met by the loop is zero, the loop stops in the
  first iteration whose update magnitude \<open>\<bar>E_next - E\<bar>\<close> is below the tolerance and
  returns the estimate \<open>E\<close> it holds then, and when no iteration gets below the
  tolerance it raises nothing: it returns the estimate after \<open>max_iter\<close> updates. For
  \<open>\<bar>e\<bar> < 1\<close> no divisor is zero at any \<open>E\<close>, and the loop returns a value.
\<close>

theorem solve_kepler_iteration_cap:
  "solve_kepler M e = fst (solve_kepler_run M e (1 / 10 ^ 12) 10)
   \<and> snd (solve_kepler_run M e tol max_iter) \<le> max_iter
   \<and> (i < max_iter
      \<and> (\<forall>j\<le>i. kepler_denominator e (kepler_iterate M e j) \<noteq> 0)
      \<and> (\<forall>j<i. \<not> \<bar>kepler_iterate M e (Suc j) - kepler_iterate M e j\<bar> < tol)
      \<and> \<bar>kepler_iterate M e (Suc i) - kepler_iterate M e i\<bar> < tol
      \<longrightarrow> solve_kepler_run M e tol max_iter = (Inr (kepler_iterate M e i), Suc i))
   \<and> ((\<forall>j<max_iter. kepler_denominator e (kepler_iterate M e j) \<noteq> 0
           \<and> \<not> \<bar>kepler_iterate M e (Suc j) - kepler_iterate M e j\<bar> < tol)
      \<longrightarrow> solve_kepler_run M e tol max_iter = (Inr (kepler_iterate M e max_iter), max_iter))
   \<and> (\<bar>e\<bar> < 1
      \<longrightarrow> (\<forall>E. kepler_denominator e E \<noteq> 0)
          \<and> (\<exists>r. fst (solve_kepler_run M e tol max_iter) = Inr r))"
proof (intro conjI impI)
  show "solve_kepler M e = fst (solve_kepler_run M e (1 / 10 ^ 12) 10)"
    by (simp add: solve_kepler_def solve_kepler_with_def)
next
  show "snd (solve_kepler_run M e tol max_iter) \<le> max_iter"
    using kepler_loop_count [of max_iter tol M e M 0] by (simp add: solve_kepler_run_def)
next
  assume "i < max_iter
      \<and> (\<forall>j\<le>i. kepler_denominator e (kepler_iterate M e j) \<noteq> 0)
      \<and> (\<forall>j<i. \<not> \<bar>kepler_iterate M e (Suc j) - kepler_iterate M e j\<bar> < tol)
      \<and> \<bar>kepler_iterate M e (Suc i) - kepler_iterate M e i\<bar> < tol"
  then show "solve_kepler_run M e tol max_iter = (Inr (kepler_iterate M e i), Suc i)"
    using kepler_loop_stops [of i max_iter e M 0 tol 0] by (simp add: solve_kepler_run_def)
next
  assume "\<forall>j<max_iter. kepler_denominator e (kepler_iterate M e j) \<noteq> 0
           \<and> \<not> \<bar>kepler_iterate M e (Suc j) - kepler_iterate M e j\<bar> < tol"
  then show "solve_kepler_run M e tol max_iter = (Inr (kepler_iterate M e max_iter), max_iter)"
    using kepler_loop_cap [of max_iter e M 0 tol 0] by (simp add: solve_kepler_run_def)
next
  assume e: "\<bar>e\<bar> < 1"
  show nz: "\<forall>E. kepler_denominator e E \<noteq> 0"
    using denominator_pos_abs [OF e] by (metis less_irrefl)
  show "\<exists>r. fst (solve_kepler_run M e tol max_iter) = Inr r"
    using kepler_loop_total [OF nz] by (simp add: solve_kepler_run_def)
qed

text \<open>
  The hypotheses at concrete inputs. With the default tolerance, \<open>M = 1\<close> and \<open>e = 0\<close>
  the first update is below the tolerance and \<open>solve_kepler\<close> returns \<open>1\<close> after one
  iteration. With \<open>M = 1\<close> and \<open>e = 1/2\<close> the first update moves the estimate by more
  than \<open>1/6\<close>: under the default tolerance a loop capped at one iteration ends at its
  cap and returns the updated estimate, and under tolerance \<open>0\<close> the loop of 10
  iterations ends at its cap and returns the tenth iterate.
\<close>

theorem solve_kepler_iteration_cap_witness:
  "solve_kepler_run 1 0 (1 / 10 ^ 12) 10 = (Inr 1, 1)
   \<and> solve_kepler 1 0 = Inr 1
   \<and> 1 / 6 \<le> kepler_iterate 1 (1 / 2) 1 - 1
   \<and> solve_kepler_run 1 (1 / 2) (1 / 10 ^ 12) 1 = (Inr (kepler_iterate 1 (1 / 2) 1), 1)
   \<and> solve_kepler_run 1 (1 / 2) 0 10 = (Inr (kepler_iterate 1 (1 / 2) 10), 10)
   \<and> \<bar>1 / 2 :: real\<bar> < 1
   \<and> (\<exists>r. solve_kepler 1 (1 / 2) = Inr r)"
proof -
  have early: "(0::nat) < 10
      \<and> (\<forall>j\<le>0. kepler_denominator 0 (kepler_iterate 1 0 j) \<noteq> 0)
      \<and> (\<forall>j<0. \<not> \<bar>kepler_iterate 1 0 (Suc j) - kepler_iterate 1 0 j\<bar> < 1 / 10 ^ 12)
      \<and> \<bar>kepler_iterate 1 0 (Suc 0) - kepler_iterate 1 0 0\<bar> < 1 / 10 ^ 12"
    by (simp add: kepler_next_def kepler_denominator_def)
  have a: "solve_kepler_run 1 0 (1 / 10 ^ 12) 10 = (Inr 1, 1)"
    using solve_kepler_iteration_cap [of 1 0 "1 / 10 ^ 12" 10 0] early by simp
  have half: "\<bar>1 / 2 :: real\<bar> < 1" by simp
  have nz: "kepler_denominator (1 / 2) E \<noteq> 0" for E
    using solve_kepler_iteration_cap [of 1 "1 / 2" 0 10 0] half by blast
  have moves: "1 / 6 \<le> kepler_iterate 1 (1 / 2) 1 - 1" by (rule first_update_moves)
  have one: "\<forall>j<1. kepler_denominator (1 / 2) (kepler_iterate 1 (1 / 2) j) \<noteq> 0
           \<and> \<not> \<bar>kepler_iterate 1 (1 / 2) (Suc j) - kepler_iterate 1 (1 / 2) j\<bar> < 1 / 10 ^ 12"
    using nz moves by simp
  have b: "solve_kepler_run 1 (1 / 2) (1 / 10 ^ 12) 1 = (Inr (kepler_iterate 1 (1 / 2) 1), 1)"
    using solve_kepler_iteration_cap [of 1 "1 / 2" "1 / 10 ^ 12" 1 0] one by blast
  have never: "\<forall>j<10. kepler_denominator (1 / 2) (kepler_iterate 1 (1 / 2) j) \<noteq> 0
           \<and> \<not> \<bar>kepler_iterate 1 (1 / 2) (Suc j) - kepler_iterate 1 (1 / 2) j\<bar> < 0"
    using nz by simp
  have c: "solve_kepler_run 1 (1 / 2) 0 10 = (Inr (kepler_iterate 1 (1 / 2) 10), 10)"
    using solve_kepler_iteration_cap [of 1 "1 / 2" 0 10 0] never by blast
  have d: "\<exists>r. solve_kepler 1 (1 / 2) = Inr r"
    using solve_kepler_iteration_cap [of 1 "1 / 2" "1 / 10 ^ 12" 10 0] half
    by (simp add: solve_kepler_def solve_kepler_with_def)
  from a moves b c half d show ?thesis
    by (simp add: solve_kepler_def solve_kepler_with_def)
qed

text \<open>
  C7. For every mean anomaly \<open>M\<close>, \<open>solve_kepler M 0\<close> returns \<open>M\<close>: with eccentricity
  zero the first update leaves \<open>E\<close> unchanged, so the loop stops in its first iteration.
\<close>

theorem solve_kepler_zero_eccentricity: "solve_kepler M 0 = Inr M"
  by (simp add: solve_kepler_def solve_kepler_with_def solve_kepler_run_def
      eval_nat_numeral kepler_denominator_def kepler_next_def)

text \<open>
  C10. For \<open>0 \<le> e < 1\<close> the divisor \<open>1 - e * cos E\<close> of the update is strictly positive
  at every \<open>E\<close>, so at every iterate of the loop, and \<open>solve_kepler\<close> returns a value:
  the division never raises.
\<close>

theorem kepler_denominator_positive:
  "0 \<le> e \<and> e < 1 \<longrightarrow>
     0 < kepler_denominator e E
     \<and> (\<forall>i. 0 < kepler_denominator e (kepler_iterate M e i))
     \<and> (\<exists>r. solve_kepler M e = Inr r)"
proof (intro impI conjI allI)
  assume e: "0 \<le> e \<and> e < 1"
  then show "0 < kepler_denominator e E" by (simp add: denominator_pos_aux)
  from e show "0 < kepler_denominator e (kepler_iterate M e i)" for i
    by (simp add: denominator_pos_aux)
  from e have "\<forall>E. kepler_denominator e E \<noteq> 0"
    using denominator_pos_aux [of e] by (metis less_irrefl)
  then show "\<exists>r. solve_kepler M e = Inr r"
    using kepler_loop_total [of e 10 "1 / 10 ^ 12" M M 0]
    by (simp add: solve_kepler_def solve_kepler_with_def solve_kepler_run_def)
qed

theorem kepler_denominator_positive_witness:
  "(0::real) \<le> 1 / 2 \<and> (1 / 2 :: real) < 1
   \<and> 0 < kepler_denominator (1 / 2) 0
   \<and> kepler_denominator (1 / 2) 0 = 1 / 2
   \<and> (\<exists>r. solve_kepler 0 (1 / 2) = Inr r)"
  using kepler_denominator_positive [of "1 / 2" 0 0]
  by (simp add: kepler_denominator_def)

subsection \<open>Time from ephemeris\<close>

text \<open>
  C2, as stated: for every epoch \<open>t\<close> and every reference time \<open>toe\<close> the wrapped time
  from ephemeris lies in \<open>[-302400, 302400]\<close>. It fails: each correction is applied
  once, so a difference of more than a week and a half stays outside. At \<open>t = 1000000\<close>
  and \<open>toe = 0\<close> the result is \<open>395200\<close>.
\<close>

theorem time_from_ephemeris_counterexample:
  "time_from_ephemeris 1000000 0 = 395200
   \<and> \<not> (- 302400 \<le> time_from_ephemeris 1000000 0 \<and> time_from_ephemeris 1000000 0 \<le> 302400)"
  by (simp add: time_from_ephemeris_def)

text \<open>
  C2, amended: whenever \<open>\<bar>t - toe\<bar> \<le> 907200\<close>, so whenever \<open>t\<close> and \<open>toe\<close> are both
  seconds of one week, the wrapped time from ephemeris lies in \<open>[-302400, 302400]\<close>.
\<close>

theorem time_from_ephemeris_bounded:
  "\<bar>t - toe_r\<bar> \<le> 907200 \<Longrightarrow>
     - 302400 \<le> time_from_ephemeris t toe_r \<and> time_from_ephemeris t toe_r \<le> 302400"
  by (auto simp: time_from_ephemeris_def Let_def)

theorem time_from_ephemeris_bounded_witness:
  "\<bar>10 - 604790 :: real\<bar> \<le> 907200
   \<and> time_from_ephemeris 10 604790 = 20
   \<and> - 302400 \<le> time_from_ephemeris 10 604790 \<and> time_from_ephemeris 10 604790 \<le> 302400"
  using time_from_ephemeris_bounded [of 10 604790]
  by (simp add: time_from_ephemeris_def)

subsection \<open>GPS seconds of week\<close>

text \<open>
  C9. For every calendar timestamp, \<open>convert_to_gps_seconds\<close> returns a value in
  \<open>[0, 604800)\<close>.
\<close>

theorem convert_to_gps_seconds_range:
  "0 \<le> convert_to_gps_seconds y m d h mi s \<and> convert_to_gps_seconds y m d h mi s < 604800"
  using py_fmod_range [of "7 * 86400"]
  by (simp add: convert_to_gps_seconds_def Let_def)

subsection \<open>Sampling\<close>



subsection \<open>Ephemeris selection\<close>

text \<open>
  C3. For every non-empty record sequence and every epoch \<open>t\<close>, the record selected is
  one whose \<open>toe\<close> minimises \<open>\<bar>t - toe\<bar>\<close>, and it is the first such record of the
  sequence: every record before it is strictly farther from \<open>t\<close>.
\<close>

theorem select_ephemeris_nearest_first:
  "records \<noteq> [] \<Longrightarrow>
     \<exists>i<length records.
        select_ephemeris t records = Inr (records ! i)
        \<and> (\<forall>j<length records. \<bar>t - toe (records ! i)\<bar> \<le> \<bar>t - toe (records ! j)\<bar>)
        \<and> (\<forall>j<i. \<bar>t - toe (records ! i)\<bar> < \<bar>t - toe (records ! j)\<bar>)"
  using py_min_first [where xs = records and key = "\<lambda>r. \<bar>t - toe r\<bar>"]
  by (simp add: select_ephemeris_def)

text \<open>
  Three records with reference times 100, 0 and 200 and the epoch 50: the first two
  are equally near, and the first one is selected.
\<close>

theorem select_ephemeris_nearest_first_witness:
  "[(make_entry (replicate 29 0) 2024 1 1 0 0 (Finite 0))\<lparr>toe := 100\<rparr>,
    (make_entry (replicate 29 0) 2024 1 1 2 0 (Finite 0))\<lparr>toe := 0\<rparr>,
    (make_entry (replicate 29 0) 2024 1 1 4 0 (Finite 0))\<lparr>toe := 200\<rparr>] \<noteq> []
   \<and> (\<exists>i<length [(make_entry (replicate 29 0) 2024 1 1 0 0 (Finite 0))\<lparr>toe := 100\<rparr>,
          (make_entry (replicate 29 0) 2024 1 1 2 0 (Finite 0))\<lparr>toe := 0\<rparr>,
          (make_entry (replicate 29 0) 2024 1 1 4 0 (Finite 0))\<lparr>toe := 200\<rparr>].
        select_ephemeris 50
          [(make_entry (replicate 29 0) 2024 1 1 0 0 (Finite 0))\<lparr>toe := 100\<rparr>,
           (make_entry (replicate 29 0) 2024 1 1 2 0 (Finite 0))\<lparr>toe := 0\<rparr>,
           (make_entry (replicate 29 0) 2024 1 1 4 0 (Finite 0))\<lparr>toe := 200\<rparr>]
        = Inr ([(make_entry (replicate 29 0) 2024 1 1 0 0 (Finite 0))\<lparr>toe := 100\<rparr>,
           (make_entry (replicate 29 0) 2024 1 1 2 0 (Finite 0))\<lparr>toe := 0\<rparr>,
           (make_entry (replicate 29 0) 2024 1 1 4 0 (Finite 0))\<lparr>toe := 200\<rparr>] ! i))
   \<and> select_ephemeris 50
          [(make_entry (replicate 29 0) 2024 1 1 0 0 (Finite 0))\<lparr>toe := 100\<rparr>,
           (make_entry (replicate 29 0) 2024 1 1 2 0 (Finite 0))\<lparr>toe := 0\<rparr>,
           (make_entry (replicate 29 0) 2024 1 1 4 0 (Finite 0))\<lparr>toe := 200\<rparr>]
      = Inr ((make_entry (replicate 29 0) 2024 1 1 0 0 (Finite 0))\<lparr>toe := 100\<rparr>)"
proof -
  have ne: "[(make_entry (replicate 29 0) 2024 1 1 0 0 (Finite 0))\<lparr>toe := 100\<rparr>,
    (make_entry (replicate 29 0) 2024 1 1 2 0 (Finite 0))\<lparr>toe := 0\<rparr>,
    (make_entry (replicate 29 0) 2024 1 1 4 0 (Finite 0))\<lparr>toe := 200\<rparr>] \<noteq> []"
    by simp
  have sel: "select_ephemeris 50
          [(make_entry (replicate 29 0) 2024 1 1 0 0 (Finite 0))\<lparr>toe := 100\<rparr>,
           (make_entry (replicate 29 0) 2024 1 1 2 0 (Finite 0))\<lparr>toe := 0\<rparr>,
           (make_entry (replicate 29 0) 2024 1 1 4 0 (Finite 0))\<lparr>toe := 200\<rparr>]
      = Inr ((make_entry (replicate 29 0) 2024 1 1 0 0 (Finite 0))\<lparr>toe := 100\<rparr>)"
    by (simp add: select_ephemeris_def py_min_def)
  from select_ephemeris_nearest_first [OF ne, of 50] ne sel show ?thesis by blast
qed

subsection \<open>The parser\<close>

text \<open>
  C1, as stated: with no header terminator the parse fails with \<^verbatim>\<open>FormatError\<close>. It
  fails on the kind of the error: the source has no such exception, and what aborts
  the parse is the \<^verbatim>\<open>IndexError\<close> of \<^verbatim>\<open>lines[0]\<close> on the emptied list.
\<close>

theorem parse_rinex_nav_format_error_counterexample:
  "\<not> contains ''END OF HEADER'' ''RINEX VERSION / TYPE''
   \<and> parse_rinex_nav [''RINEX VERSION / TYPE''] = Inl IndexError
   \<and> parse_rinex_nav [''RINEX VERSION / TYPE''] \<noteq> Inl FormatError"
  by (simp add: parse_rinex_nav_def)

text \<open>
  C1, amended: if no line of the input contains the header terminator,
  \<open>parse_rinex_nav\<close> fails with \<^verbatim>\<open>IndexError\<close>: the parse aborts and returns no
  dictionary, complete or partial.
\<close>

theorem parse_rinex_nav_no_terminator:
  "\<forall>l\<in>set lines. \<not> contains ''END OF HEADER'' l \<Longrightarrow> parse_rinex_nav lines = Inl IndexError"
  by (simp add: parse_rinex_nav_def skip_header_without_terminator)

theorem parse_rinex_nav_no_terminator_witness:
  "\<not> contains ''END OF HEADER'' ''RINEX VERSION / TYPE''
   \<and> \<not> contains ''END OF HEADER'' ''G01 2024 01 01 00 00 00''
   \<and> parse_rinex_nav [''RINEX VERSION / TYPE'', ''G01 2024 01 01 00 00 00''] = Inl IndexError"
proof -
  have h: "\<forall>l\<in>set [''RINEX VERSION / TYPE'', ''G01 2024 01 01 00 00 00'']. \<not> contains ''END OF HEADER'' l"
    by simp
  from h parse_rinex_nav_no_terminator [OF h] show ?thesis by simp
qed

text \<open>
  C4, as stated: every block of 8 lines with fewer than 29 numeric tokens is dropped
  without an error. It fails: the timestamp of the block's first line is converted
  before the tokens are counted, and \<^verbatim>\<open>int\<close> raises \<^verbatim>\<open>ValueError\<close> on a column that
  is no number. The block below has an identifier, no timestamp and no token; the parse
  aborts on it.
\<close>

theorem short_block_counterexample:
  "length [''G01'', [], [], [], [], [], [], []] = 8
   \<and> length (block_tokens [''G01'', [], [], [], [], [], [], []]) < 29
   \<and> process_block Map.empty [''G01'', [], [], [], [], [], [], []] = Inl ValueError
   \<and> parse_rinex_nav [''END OF HEADER'', ''G01'', [], [], [], [], [], [], []] = Inl ValueError"
  by (simp add: parse_rinex_nav_def parse_blocks.simps process_block_def block_prn_def
      block_timestamp_def line_timestamp_def block_tokens_def slice_def strip_def strip_by_def
      is_space_def is_number_space_def py_int_def split_sign_def setdefault_def
      match_token_def opt_sign_def is_sign_def is_mantissa_char_def is_digit_def)

text \<open>
  C4, amended: a block of 8 lines with fewer than 29 numeric tokens is dropped without
  an error when its identifier is blank, or when the timestamp columns of its first
  line and all its tokens convert to numbers. No record is appended for it (the record
  sequence of every satellite is what it was) and parsing goes on with the next block.
\<close>

theorem short_block_discarded:
  assumes "length block = 8"
    and "length (block_tokens block) < 29"
    and "block_prn block = Inr []
         \<or> (\<exists>ts. block_timestamp block = Inr ts) \<and> (\<exists>vs. block_values block = Inr vs)"
  shows "\<exists>nav'. process_block nav block = Inr nav'
           \<and> (\<forall>prn. records_of nav' prn = records_of nav prn)
           \<and> parse_blocks nav (block @ rest) = parse_blocks nav' rest"
proof -
  obtain l0 ls where block: "block = l0 # ls" using assms(1) by (cases block) auto
  then obtain prn where prn: "block_prn block = Inr prn" by (simp add: block_prn_def)
  have "\<exists>nav'. process_block nav block = Inr nav'
           \<and> (\<forall>prn. records_of nav' prn = records_of nav prn)"
  proof (cases "prn = []")
    case True
    then show ?thesis by (simp add: process_block_def prn)
  next
    case False
    with assms(3) prn obtain ts vs where ts: "block_timestamp block = Inr ts"
      and vs: "block_values block = Inr vs" by auto
    have "length vs < 29" using block_values_length [OF vs] assms(2) by simp
    then have "process_block nav block = Inr (setdefault nav prn)"
      using False by (simp add: process_block_def prn ts vs split: prod.splits)
    then show ?thesis by (simp add: records_of_setdefault)
  qed
  then obtain nav' where step: "process_block nav block = Inr nav'"
    and same: "\<forall>prn. records_of nav' prn = records_of nav prn" by blast
  from parse_blocks_step [OF assms(1) step] step same show ?thesis by blast
qed

theorem short_block_discarded_witness:
  "length [''G01 2024 01 01 00 00 00-1.5D+01'', [], [], [], [], [], [], []] = 8
   \<and> length (block_tokens [''G01 2024 01 01 00 00 00-1.5D+01'', [], [], [], [], [], [], []]) < 29
   \<and> block_timestamp [''G01 2024 01 01 00 00 00-1.5D+01'', [], [], [], [], [], [], []]
       = Inr (2024, 1, 1, 0, 0, Finite 0)
   \<and> block_values [''G01 2024 01 01 00 00 00-1.5D+01'', [], [], [], [], [], [], []] = Inr [- 15]
   \<and> (\<exists>nav'. process_block Map.empty [''G01 2024 01 01 00 00 00-1.5D+01'', [], [], [], [], [], [], []]
                = Inr nav'
           \<and> (\<forall>prn. records_of nav' prn = records_of Map.empty prn)
           \<and> parse_blocks Map.empty
                ([''G01 2024 01 01 00 00 00-1.5D+01'', [], [], [], [], [], [], []] @ [])
              = parse_blocks nav' [])"
proof -
  have len: "length [''G01 2024 01 01 00 00 00-1.5D+01'', [], [], [], [], [], [], []] = 8"
    by simp
  have toks: "block_tokens [''G01 2024 01 01 00 00 00-1.5D+01'', [], [], [], [], [], [], []]
      = [''-1.5D+01'']"
    by (simp add: block_tokens_def match_token_def opt_sign_def is_sign_def
        is_mantissa_char_def is_digit_def)
  have ts: "block_timestamp [''G01 2024 01 01 00 00 00-1.5D+01'', [], [], [], [], [], [], []]
      = Inr (2024, 1, 1, 0, 0, Finite 0)"
    by (simp add: block_timestamp_def line_timestamp_def slice_def strip_def strip_by_def
        is_space_def is_number_space_def py_int_def py_float_def decimal_float_def
        float_literal_def split_sign_def is_digit_def digits_value_def to_lower_def)
  have vs: "block_values [''G01 2024 01 01 00 00 00-1.5D+01'', [], [], [], [], [], [], []]
      = Inr [- 15]"
    by (simp add: match_token_def opt_sign_def is_sign_def is_mantissa_char_def is_digit_def
        float_of_token_def decimal_float_def float_literal_def split_sign_def strip_by_def
        is_number_space_def digits_value_def)
  have small: "length (block_tokens [''G01 2024 01 01 00 00 00-1.5D+01'', [], [], [], [], [], [], []]) < 29"
    by (simp add: toks)
  have conv: "block_prn [''G01 2024 01 01 00 00 00-1.5D+01'', [], [], [], [], [], [], []] = Inr []
         \<or> (\<exists>ts. block_timestamp [''G01 2024 01 01 00 00 00-1.5D+01'', [], [], [], [], [], [], []] = Inr ts)
           \<and> (\<exists>vs. block_values [''G01 2024 01 01 00 00 00-1.5D+01'', [], [], [], [], [], [], []] = Inr vs)"
    using ts vs by blast
  from len small ts vs short_block_discarded [OF len small conv, of Map.empty "[]"]
  show ?thesis by blast
qed

text \<open>
  C5. There is an input on which \<open>parse_rinex_nav\<close> returns a dictionary that maps a
  satellite identifier to the empty record sequence: the only block of this file has an
  identifier and a timestamp but no numeric token, so the identifier is registered and
  the block is then dropped.
\<close>

theorem parse_rinex_nav_empty_satellite:
  "parse_rinex_nav
     [''END OF HEADER'', ''G01 2024 01 01 00 00 00'', [], [], [], [], [], [], []]
   = Inr (Map.empty(''G01'' \<mapsto> []))"
  by (simp add: parse_rinex_nav_def parse_blocks.simps process_block_def block_prn_def
      block_timestamp_def line_timestamp_def slice_def strip_def strip_by_def
      is_space_def is_number_space_def py_int_def py_float_def decimal_float_def
      float_literal_def split_sign_def is_digit_def digits_value_def to_lower_def
      setdefault_def match_token_def opt_sign_def is_sign_def is_mantissa_char_def)

end
